theory Spec2Isabelle
  imports Main "HOL-Library.AList"
begin

section \<open>Strings, integers and dictionaries of the Python source\<close>

text \<open>
  The development embeds \<^verbatim>\<open>qa4smreader/ncplot.py\<close>: the functions that decode a variable
  name of a validation result file into a metadata dictionary (\<^verbatim>\<open>_get_meta\<close> with its
  nested \<^verbatim>\<open>_get_pretty_name\<close>), collect the dictionaries of a dataset
  (\<^verbatim>\<open>_get_varmeta\<close>), list its metrics (\<^verbatim>\<open>_get_metrics\<close>, \<^verbatim>\<open>get_metrics\<close>) and
  select the variables of a metric (\<^verbatim>\<open>_get_var\<close>).

  An identifier cannot start with an underscore here, so the functions that the source
  names \<^verbatim>\<open>_f\<close> and that work on an opened dataset are called \<open>ds_f\<close>:
  \<^verbatim>\<open>_get_meta\<close> is \<open>ds_get_meta\<close>, \<^verbatim>\<open>_get_varmeta\<close> is \<open>ds_get_varmeta\<close>,
  \<^verbatim>\<open>_get_metrics\<close> is \<open>ds_get_metrics\<close>, \<^verbatim>\<open>_get_var\<close> is \<open>ds_get_var\<close>, and the nested
  \<^verbatim>\<open>_get_pretty_name\<close> is \<open>get_pretty_name\<close>.

  A Python \<^verbatim>\<open>str\<close> is modelled as a \<^typ>\<open>string\<close> whose characters are the code points
  0 to 255; the character classes and the case folding below are those of Python's
  \<^verbatim>\<open>re\<close> module on that range. Python integers are unbounded, hence \<^typ>\<open>int\<close>.
\<close>

datatype pyval = PStr string | PInt int

text \<open>
  The source raises the builtin \<^verbatim>\<open>Exception\<close> with a message; a read of a dictionary
  key that is not there raises \<^verbatim>\<open>KeyError\<close>.
\<close>

datatype error = Exception string | KeyError string

text \<open>
  The opened dataset, as far as the source reads it: the names of \<^verbatim>\<open>ds.data_vars\<close> in
  their order, and the global attributes \<^verbatim>\<open>ds.attrs\<close>.
\<close>

record dataset =
  data_vars :: "string list"
  attrs :: "string \<rightharpoonup> string"

text \<open>
  The two lookup tables \<^verbatim>\<open>globals._dataset_pretty_names\<close> and
  \<^verbatim>\<open>globals._dataset_version_pretty_names\<close> that \<^verbatim>\<open>_get_pretty_name\<close> reads. The
  module \<^verbatim>\<open>globals.py\<close> at hand does not spell them out, so they are parameters of the
  model.
\<close>

record tables =
  dataset_pretty_names :: "string \<rightharpoonup> string"
  dataset_version_pretty_names :: "string \<rightharpoonup> string"

definition index_names :: "string list" where
  "index_names = [''lat'', ''lon'']"

subsection \<open>\<^verbatim>\<open>str\<close> of an integer and \<^verbatim>\<open>int\<close> of a digit string\<close>

definition digit_char :: "nat \<Rightarrow> char" where
  "digit_char d = ''0123456789'' ! d"

fun str_nat :: "nat \<Rightarrow> string" where
  "str_nat n = (if n < 10 then [digit_char n] else str_nat (n div 10) @ [digit_char (n mod 10)])"

declare str_nat.simps [simp del]

definition str_int :: "int \<Rightarrow> string" where
  "str_int i = (if i < 0 then CHR ''-'' # str_nat (nat (- i)) else str_nat (nat i))"

text \<open>
  \<^verbatim>\<open>int(s)\<close> for a string of decimal digits, the only strings the source passes to it
  (the text of a \<^verbatim>\<open>(\d+)\<close> group, see \<open>between_groups_sound\<close> below). The number of
  digits is not bounded, as in the interpreters the package was written for; an
  interpreter that limits the length of the strings that \<^verbatim>\<open>int\<close> and \<^verbatim>\<open>str\<close> convert
  (4300 digits by default since Python 3.11) raises \<^verbatim>\<open>ValueError\<close> beyond its limit,
  which the model leaves out.
\<close>

definition digit_val :: "char \<Rightarrow> int" where
  "digit_val c = int (of_char c) - 48"

definition py_int :: "string \<Rightarrow> int" where
  "py_int s = foldl (\<lambda>acc c. 10 * acc + digit_val c) 0 s"

section \<open>The regular expression of \<^verbatim>\<open>_get_meta\<close>\<close>

text \<open>
  \<^verbatim>\<open>(\D+)_between_(\d+)-(\S+)_(\d+)-(?P<dataset>\S+)\<close> is a sequence of literal texts and
  of capturing groups, each group one greedy repetition \<^verbatim>\<open>C+\<close> of a character class.
  \<^verbatim>\<open>\d\<close> is a decimal digit, \<^verbatim>\<open>\D\<close> any other character, \<^verbatim>\<open>\S\<close> any character that
  is not white space.
\<close>

definition is_digit :: "char \<Rightarrow> bool" where
  "is_digit c = (let n = (of_char c :: nat) in 48 \<le> n \<and> n \<le> 57)"

definition is_space :: "char \<Rightarrow> bool" where
  "is_space c = (let n = (of_char c :: nat) in
     (9 \<le> n \<and> n \<le> 13) \<or> (28 \<le> n \<and> n \<le> 32) \<or> n = 133 \<or> n = 160)"

datatype char_class = Digit | NonDigit | NonSpace

fun in_class :: "char_class \<Rightarrow> char \<Rightarrow> bool" where
  "in_class Digit c = is_digit c"
| "in_class NonDigit c = (\<not> is_digit c)"
| "in_class NonSpace c = (\<not> is_space c)"

datatype re_item = Lit string | Group char_class

text \<open>
  Backtracking as the \<^verbatim>\<open>re\<close> engine does it: a greedy group first takes the longest run
  of its class, the rest of the pattern is tried behind it, and on failure the group gives
  back one character at a time, down to one character. \<open>greedy k s n\<close> tries the lengths
  \<open>n\<close>, \<open>n - 1\<close>, \dots, 1 with the continuation \<open>k\<close> for the rest of the pattern.
\<close>

fun greedy :: "(string \<Rightarrow> string list option) \<Rightarrow> string \<Rightarrow> nat \<Rightarrow> string list option" where
  "greedy k s 0 = None"
| "greedy k s (Suc n) =
     (case k (drop (Suc n) s) of
        Some gs \<Rightarrow> Some (take (Suc n) s # gs)
      | None \<Rightarrow> greedy k s n)"

text \<open>
  \<^verbatim>\<open>pattern.match(s)\<close>: the match is anchored at the start of \<open>s\<close> and need not reach
  its end. The result is the list of the groups' texts, \<open>None\<close> when nothing matches.
\<close>

fun re_match :: "re_item list \<Rightarrow> string \<Rightarrow> string list option" where
  "re_match [] s = Some []"
| "re_match (Lit l # ps) s =
     (if take (length l) s = l then re_match ps (drop (length l) s) else None)"
| "re_match (Group c # ps) s =
     greedy (re_match ps) s (length (takeWhile (in_class c) s))"

definition between_pattern :: "re_item list" where
  "between_pattern =
     [Group NonDigit, Lit ''_between_'', Group Digit, Lit ''-'', Group NonSpace,
      Lit ''_'', Group Digit, Lit ''-'', Group NonSpace]"

section \<open>\<^verbatim>\<open>_get_meta\<close>\<close>

text \<open>
  The nested \<^verbatim>\<open>_get_pretty_name(ds, name, number)\<close>: each \<^verbatim>\<open>try\<close> is a lookup, each
  \<^verbatim>\<open>except KeyError\<close> the branch of the missing key.
\<close>

definition get_pretty_name :: "tables \<Rightarrow> dataset \<Rightarrow> string \<Rightarrow> int \<Rightarrow> string \<times> string \<times> string" where
  "get_pretty_name g ds name number =
     (let pretty_name =
            (case attrs ds (''val_dc_pretty_name'' @ str_int (number - 1)) of
               Some v \<Rightarrow> v
             | None \<Rightarrow>
                 (case dataset_pretty_names g name of
                    Some v \<Rightarrow> v
                  | None \<Rightarrow> name));
          (version, version_pretty_name) =
            (case attrs ds (''val_dc_version'' @ str_int (number - 1)) of
               Some version \<Rightarrow>
                 (version,
                  case attrs ds (''val_dc_version_pretty_name'' @ str_int (number - 1)) of
                    Some v \<Rightarrow> v
                  | None \<Rightarrow>
                      (case dataset_version_pretty_names g version of
                         Some v \<Rightarrow> v
                       | None \<Rightarrow> version))
             | None \<Rightarrow> (''unknown'', ''unknown version''))
      in (pretty_name, version, version_pretty_name))"

definition not_contained_msg :: "string \<Rightarrow> string" where
  "not_contained_msg var =
     ''The given var '' @ [CHR 0x27] @ var @ [CHR 0x27] @ '' is not contained in the dataset.''"

definition no_match_msg :: "string \<Rightarrow> string" where
  "no_match_msg var =
     ''The given var '' @ [CHR 0x27] @ var @ [CHR 0x27] @ '' does not match the regex pattern.''"

text \<open>
  The block \<^verbatim>\<open># === parse var ===\<close>. When the pattern does not match, \<^verbatim>\<open>match\<close> is
  \<^verbatim>\<open>None\<close>, \<^verbatim>\<open>match.group(1)\<close> raises \<^verbatim>\<open>AttributeError\<close> before anything is stored,
  and the handler either fills in the fixed entries of \<^verbatim>\<open>n_obs\<close> or raises.
  \<^verbatim>\<open>match.group(k)\<close> is the element \<open>k - 1\<close> of the list of groups.
\<close>

definition parse_var :: "string \<Rightarrow> error + (string \<rightharpoonup> pyval)" where
  "parse_var var =
     (case re_match between_pattern var of
        Some gs \<Rightarrow>
          Inr [''metric'' \<mapsto> PStr (gs ! 0),
               ''ref_no'' \<mapsto> PInt (py_int (gs ! 1)),
               ''ref'' \<mapsto> PStr (gs ! 2),
               ''ds_no'' \<mapsto> PInt (py_int (gs ! 3)),
               ''ds'' \<mapsto> PStr (gs ! 4)]
      | None \<Rightarrow>
          if var = ''n_obs'' then
            Inr [''metric'' \<mapsto> PStr ''n_obs'',
                 ''ref_no'' \<mapsto> PInt 1,
                 ''ref'' \<mapsto> PStr ''GLDAS'',
                 ''ds_no'' \<mapsto> PInt 1,
                 ''ds'' \<mapsto> PStr ''GLDAS'']
          else Inl (Exception (no_match_msg var)))"

text \<open>
  One round of the loop \<^verbatim>\<open>for i in ('ds','ref')\<close>. The reads \<^verbatim>\<open>meta[i]\<close> and
  \<^verbatim>\<open>meta[i+'_no']\<close> fail when the key is missing (or, for the number, holds no
  integer); \<open>parse_var\<close> stores both, so these branches are never taken
  (\<open>parse_var_roles\<close>, \<open>pretty_loop_roles\<close>).
\<close>

definition pretty_step :: "tables \<Rightarrow> dataset \<Rightarrow> string \<Rightarrow> (string \<rightharpoonup> pyval) \<Rightarrow> error + (string \<rightharpoonup> pyval)" where
  "pretty_step g ds i meta =
     (case meta i of
        Some (PStr name) \<Rightarrow>
          (case meta (i @ ''_no'') of
             Some (PInt number) \<Rightarrow>
               (case get_pretty_name g ds name number of
                  (pretty_name, version, version_pretty_name) \<Rightarrow>
                    Inr (meta(i @ ''_pretty_name'' \<mapsto> PStr pretty_name,
                              i @ ''_version'' \<mapsto> PStr version,
                              i @ ''_version_pretty_name'' \<mapsto> PStr version_pretty_name)))
           | _ \<Rightarrow> Inl (KeyError (i @ ''_no'')))
      | _ \<Rightarrow> Inl (KeyError i))"

fun pretty_loop :: "tables \<Rightarrow> dataset \<Rightarrow> string list \<Rightarrow> (string \<rightharpoonup> pyval) \<Rightarrow> error + (string \<rightharpoonup> pyval)" where
  "pretty_loop g ds [] meta = Inr meta"
| "pretty_loop g ds (i # is) meta =
     (case pretty_step g ds i meta of
        Inl e \<Rightarrow> Inl e
      | Inr meta' \<Rightarrow> pretty_loop g ds is meta')"

definition ds_get_meta :: "tables \<Rightarrow> dataset \<Rightarrow> string \<Rightarrow> error + (string \<rightharpoonup> pyval)" where
  "ds_get_meta g ds var =
     (if var \<notin> set (data_vars ds) then Inl (Exception (not_contained_msg var))
      else
        (case parse_var var of
           Inl e \<Rightarrow> Inl e
         | Inr meta \<Rightarrow> pretty_loop g ds [''ds'', ''ref''] meta))"

section \<open>\<^verbatim>\<open>_get_varmeta\<close>, \<^verbatim>\<open>_get_metrics\<close> and \<^verbatim>\<open>get_metrics\<close>\<close>

text \<open>
  \<^verbatim>\<open>xs.remove(x)\<close> deletes the first occurrence of \<open>x\<close> and raises \<^verbatim>\<open>ValueError\<close>,
  here \<open>None\<close>, when there is none.
\<close>

definition list_remove :: "'a \<Rightarrow> 'a list \<Rightarrow> 'a list option" where
  "list_remove x xs = (if x \<in> set xs then Some (remove1 x xs) else None)"

text \<open>
  The default list of variables: all of \<^verbatim>\<open>ds.data_vars\<close> without \<^verbatim>\<open>lat\<close>, \<^verbatim>\<open>lon\<close>
  and \<^verbatim>\<open>gpi\<close>. A name that is not there only produces a warning, which the model does
  not record.
\<close>

fun remove_indexes :: "string list \<Rightarrow> string list \<Rightarrow> string list" where
  "remove_indexes [] variables = variables"
| "remove_indexes (index # rest) variables =
     remove_indexes rest
       (case list_remove index variables of
          Some variables' \<Rightarrow> variables'
        | None \<Rightarrow> variables)"

text \<open>
  The dictionary comprehension \<^verbatim>\<open>{var:_get_meta(ds,var) for var in variables}\<close>: the
  first exception ends it; a dictionary keeps the order in which its keys were first
  stored, which is what \<^const>\<open>AList.update\<close> does on an association list.
\<close>

fun collect_meta :: "tables \<Rightarrow> dataset \<Rightarrow> string list \<Rightarrow> (string \<times> (string \<rightharpoonup> pyval)) list
    \<Rightarrow> error + (string \<times> (string \<rightharpoonup> pyval)) list" where
  "collect_meta g ds [] acc = Inr acc"
| "collect_meta g ds (var # rest) acc =
     (case ds_get_meta g ds var of
        Inl e \<Rightarrow> Inl e
      | Inr meta \<Rightarrow> collect_meta g ds rest (AList.update var meta acc))"

text \<open>\<^verbatim>\<open>if not variables\<close> holds for \<^verbatim>\<open>None\<close> and for the empty list.\<close>

definition ds_get_varmeta :: "tables \<Rightarrow> dataset \<Rightarrow> string list option
    \<Rightarrow> error + (string \<times> (string \<rightharpoonup> pyval)) list" where
  "ds_get_varmeta g ds variables =
     (let default = remove_indexes (index_names @ [''gpi'']) (data_vars ds);
          variables' =
            (case variables of
               None \<Rightarrow> default
             | Some vs \<Rightarrow> if vs = [] then default else vs)
      in collect_meta g ds variables' [])"

text \<open>
  The loop of \<^verbatim>\<open>_get_metrics\<close> over the dictionary: \<^verbatim>\<open>varmeta[var]['metric']\<close> is
  appended unless the list has it already.
\<close>

fun metrics_loop :: "(string \<times> (string \<rightharpoonup> pyval)) list \<Rightarrow> pyval list \<Rightarrow> error + pyval list" where
  "metrics_loop [] metrics = Inr metrics"
| "metrics_loop ((var, meta) # rest) metrics =
     (case meta ''metric'' of
        None \<Rightarrow> Inl (KeyError ''metric'')
      | Some m \<Rightarrow> metrics_loop rest (if m \<notin> set metrics then metrics @ [m] else metrics))"

definition ds_get_metrics :: "tables \<Rightarrow> dataset \<Rightarrow> error + pyval list" where
  "ds_get_metrics g ds =
     (case ds_get_varmeta g ds None of
        Inl e \<Rightarrow> Inl e
      | Inr varmeta \<Rightarrow> metrics_loop varmeta [])"

text \<open>
  \<^verbatim>\<open>get_metrics\<close> on the opened file. The two \<^verbatim>\<open>remove\<close> calls share one \<^verbatim>\<open>try\<close>
  whose handler is \<^verbatim>\<open>pass\<close>: the first \<^verbatim>\<open>ValueError\<close> leaves the list as it is at that
  moment.
\<close>

definition get_metrics :: "tables \<Rightarrow> dataset \<Rightarrow> error + pyval list" where
  "get_metrics g ds =
     (case ds_get_metrics g ds of
        Inl e \<Rightarrow> Inl e
      | Inr metrics \<Rightarrow>
          Inr (case list_remove (PStr ''tau'') metrics of
                 None \<Rightarrow> metrics
               | Some metrics1 \<Rightarrow>
                   (case list_remove (PStr ''p_tau'') metrics1 of
                      None \<Rightarrow> metrics1
                    | Some metrics2 \<Rightarrow> metrics2)))"

section \<open>\<^verbatim>\<open>_get_var\<close>\<close>

text \<open>
  \<^verbatim>\<open>re.search(r'^{}_between'.format(metric), var, re.I)\<close> puts the metric into the
  pattern as it is, so the metric is read as a regular expression. The model interprets
  the patterns in which every character of the metric is either an ordinary character,
  which stands for itself, or the dot, which stands for any character but the newline;
  for a metric with another operator of the pattern language (one of the characters of
  \<open>re_special\<close>) \<open>compile_metric\<close> is \<open>None\<close> and the model says nothing.
\<close>

datatype re_atom = AnyChar | Literal char

definition re_special :: "char \<Rightarrow> bool" where
  "re_special c = (c \<in> set (CHR 0x5C # ''^$*+?{}[]|()''))"

fun compile_metric :: "string \<Rightarrow> re_atom list option" where
  "compile_metric [] = Some []"
| "compile_metric (c # cs) =
     (if c = CHR ''.'' then map_option (Cons AnyChar) (compile_metric cs)
      else if re_special c then None
      else map_option (Cons (Literal c)) (compile_metric cs))"

text \<open>
  Under \<^verbatim>\<open>re.I\<close> a literal matches a character when both have the same lower case;
  \<open>py_lower\<close> is the code point of the lower case. On the code points below 256 the
  letters with a lower case are A to Z and the accented capitals 192 to 222 without the
  multiplication sign 215, each 32 below its lower case.
\<close>

definition py_lower :: "char \<Rightarrow> nat" where
  "py_lower c =
     (let n = (of_char c :: nat)
      in if (65 \<le> n \<and> n \<le> 90) \<or> (192 \<le> n \<and> n \<le> 222 \<and> n \<noteq> 215)
         then n + 32 else n)"

fun atom_match :: "re_atom \<Rightarrow> char \<Rightarrow> bool" where
  "atom_match AnyChar c = (c \<noteq> CHR 0x0A)"
| "atom_match (Literal a) c = (py_lower c = py_lower a)"

text \<open>
  \<^verbatim>\<open>re.search\<close> with a pattern that starts with \<^verbatim>\<open>^\<close> (and no \<^verbatim>\<open>re.M\<close>) can only
  match at the start of the string; the result is used as a truth value.
\<close>

fun search_anchored :: "re_atom list \<Rightarrow> string \<Rightarrow> bool" where
  "search_anchored [] s = True"
| "search_anchored (a # as) [] = False"
| "search_anchored (a # as) (c # s) = (atom_match a c \<and> search_anchored as s)"

definition ds_get_var :: "dataset \<Rightarrow> string \<Rightarrow> string list option" where
  "ds_get_var ds metric =
     (if metric = ''n_obs'' then Some [metric]
      else
        (case compile_metric metric of
           None \<Rightarrow> None
         | Some atoms \<Rightarrow>
             Some (filter (search_anchored (atoms @ map Literal ''_between'')) (data_vars ds))))"

section \<open>Specification-side notions\<close>

text \<open>
  What it means for a list of group texts to be \<^emph>\<open>a\<close> match of a pattern at the start of
  a string, whichever way it is found: every literal is there, every group is a
  non-empty run of its class. \<open>re_match\<close> finds the first such list in the order of the
  backtracking search (\<open>re_match_sound\<close>) and finds one whenever there is one
  (\<open>re_match_complete\<close>).
\<close>

fun is_match :: "re_item list \<Rightarrow> string list \<Rightarrow> string \<Rightarrow> bool" where
  "is_match [] gs s = (gs = [])"
| "is_match (Lit l # ps) gs s = (take (length l) s = l \<and> is_match ps gs (drop (length l) s))"
| "is_match (Group c # ps) [] s = False"
| "is_match (Group c # ps) (g # gs) s =
     (g \<noteq> [] \<and> (\<forall>x \<in> set g. in_class c x) \<and> take (length g) s = g \<and>
      is_match ps gs (drop (length g) s))"

text \<open>
  The reading of \<^verbatim>\<open>_get_var\<close> as a search for the names that begin with the metric and
  \<^verbatim>\<open>_between\<close>, letter case ignored.
\<close>

definition starts_with_ci :: "string \<Rightarrow> string \<Rightarrow> bool" where
  "starts_with_ci p s = (map py_lower (take (length p) s) = map py_lower p)"

section \<open>Example files\<close>

text \<open>
  A small validation file for the examples: the reference dataset at position 1 has a
  pretty name and a version among the attributes, the dataset at position 2 has neither.
\<close>

definition example_tables :: tables where
  "example_tables =
     \<lparr>dataset_pretty_names = [''ISMN'' \<mapsto> ''ISMN network''],
      dataset_version_pretty_names = [''v2'' \<mapsto> ''version 2'']\<rparr>"

definition example_ds :: dataset where
  "example_ds =
     \<lparr>data_vars = [''lat'', ''lon'', ''R_between_1-ISMN_2-SMAP''],
      attrs = [''val_dc_pretty_name0'' \<mapsto> ''In Situ Network'',
               ''val_dc_version0'' \<mapsto> ''v2'']\<rparr>"

text \<open>
  Two files for \<^verbatim>\<open>get_metrics\<close>: one whose variables give the metric \<^verbatim>\<open>p_tau\<close> but not
  \<^verbatim>\<open>tau\<close>, one whose variables give both.
\<close>

definition p_tau_ds :: dataset where
  "p_tau_ds =
     \<lparr>data_vars = [''lat'', ''lon'', ''p_tau_between_1-a_2-b'', ''R_between_1-a_2-b''],
      attrs = Map.empty\<rparr>"

definition tau_ds :: dataset where
  "tau_ds =
     \<lparr>data_vars = [''tau_between_1-a_2-b'', ''p_tau_between_1-a_2-b'', ''R_between_1-a_2-b'',
                   ''gpi''],
      attrs = Map.empty\<rparr>"

section \<open>Properties of the pattern matcher\<close>

lemma greedy_Some:
  "greedy k s n = Some gs \<Longrightarrow> \<exists>m gs'. 0 < m \<and> m \<le> n \<and> k (drop m s) = Some gs' \<and> gs = take m s # gs'"
proof (induction n)
  case 0
  then show ?case by simp
next
  case (Suc n)
  show ?case
  proof (cases "k (drop (Suc n) s)")
    case None
    with Suc.prems have "greedy k s n = Some gs" by simp
    from Suc.IH[OF this] show ?thesis by (metis le_Suc_eq)
  next
    case (Some gs')
    with Suc.prems have "gs = take (Suc n) s # gs'" by simp
    with Some show ?thesis by blast
  qed
qed

lemma greedy_None:
  "greedy k s n = None \<longleftrightarrow> (\<forall>m. 0 < m \<and> m \<le> n \<longrightarrow> k (drop m s) = None)"
proof (induction n)
  case 0
  then show ?case by simp
next
  case (Suc n)
  show ?case
  proof (cases "k (drop (Suc n) s)")
    case None
    then have "greedy k s (Suc n) = greedy k s n" by simp
    with Suc.IH None show ?thesis by (metis le_Suc_eq)
  next
    case (Some gs')
    then show ?thesis by auto
  qed
qed

lemma take_takeWhile_all:
  assumes "m \<le> length (takeWhile P s)"
  shows "\<forall>x \<in> set (take m s). P x"
proof -
  have "take m s = take m (takeWhile P s @ dropWhile P s)" by simp
  also have "\<dots> = take m (takeWhile P s)" using assms by (simp del: takeWhile_dropWhile_id)
  finally have "set (take m s) \<subseteq> set (takeWhile P s)" by (simp add: set_take_subset)
  then show ?thesis by (auto dest: set_takeWhileD)
qed

lemma re_match_sound: "re_match ps s = Some gs \<Longrightarrow> is_match ps gs s"
proof (induction ps s arbitrary: gs rule: re_match.induct)
  case (1 s)
  then show ?case by simp
next
  case (2 l ps s)
  then show ?case by (auto split: if_splits)
next
  case (3 c ps s)
  from 3(2) have "greedy (re_match ps) s (length (takeWhile (in_class c) s)) = Some gs" by simp
  from greedy_Some[OF this] obtain m gs' where
    m: "0 < m" "m \<le> length (takeWhile (in_class c) s)"
    and k: "re_match ps (drop m s) = Some gs'" and gs: "gs = take m s # gs'" by blast
  have ml: "m \<le> length s" using m(2) length_takeWhile_le[of "in_class c" s] by linarith
  have len: "length (take m s) = m" using ml by simp
  have "is_match ps gs' (drop m s)" using 3(1) k by blast
  moreover have "\<forall>x \<in> set (take m s). in_class c x" using take_takeWhile_all[OF m(2)] .
  moreover have "take m s \<noteq> []" using m(1) ml by auto
  ultimately show ?case using gs len by simp
qed

lemma prefix_class_le_takeWhile:
  "take (length g) s = g \<Longrightarrow> \<forall>x \<in> set g. P x \<Longrightarrow> length g \<le> length (takeWhile P s)"
proof (induction g arbitrary: s)
  case Nil
  then show ?case by simp
next
  case (Cons a g)
  then obtain s' where s: "s = a # s'" by (cases s) auto
  with Cons.prems have "take (length g) s' = g" "\<forall>x \<in> set g. P x" "P a" by auto
  with Cons.IH s show ?case by simp
qed

lemma re_match_complete: "is_match ps gs s \<Longrightarrow> re_match ps s \<noteq> None"
proof (induction ps s arbitrary: gs rule: re_match.induct)
  case (1 s)
  then show ?case by simp
next
  case (2 l ps s)
  then show ?case by auto
next
  case (3 c ps s)
  from 3(2) obtain g gs' where gs: "gs = g # gs'" by (cases gs) auto
  with 3(2) have g: "g \<noteq> []" "\<forall>x \<in> set g. in_class c x" "take (length g) s = g"
    and r: "is_match ps gs' (drop (length g) s)" by auto
  have "re_match ps (drop (length g) s) \<noteq> None" using 3(1) r by blast
  moreover have "length g \<le> length (takeWhile (in_class c) s)"
    using prefix_class_le_takeWhile[OF g(3) g(2)] .
  moreover have "0 < length g" using g(1) by simp
  ultimately have "\<not> (\<forall>m. 0 < m \<and> m \<le> length (takeWhile (in_class c) s)
      \<longrightarrow> re_match ps (drop m s) = None)"
    by (intro notI) (drule spec[of _ "length g"], simp)
  then have "greedy (re_match ps) s (length (takeWhile (in_class c) s)) \<noteq> None"
    by (simp only: greedy_None not_False_eq_True)
  then show ?case by simp
qed

lemma str_nat_nonempty: "str_nat n \<noteq> []"
  by (subst str_nat.simps) simp

lemma digit_char_not_underscore: "d < 10 \<Longrightarrow> digit_char d \<noteq> CHR ''_''"
proof -
  assume "d < 10"
  then have "digit_char d \<in> set ''0123456789''"
    unfolding digit_char_def by (intro nth_mem) simp
  then show ?thesis by auto
qed

lemma hd_str_nat: "hd (str_nat n) \<noteq> CHR ''_''"
proof (induction n rule: str_nat.induct)
  case (1 n)
  show ?case
  proof (cases "n < 10")
    case True
    then show ?thesis by (subst str_nat.simps) (simp add: digit_char_not_underscore)
  next
    case False
    with 1 have "hd (str_nat (n div 10)) \<noteq> CHR ''_''" by simp
    with False str_nat_nonempty[of "n div 10"] show ?thesis
      by (subst str_nat.simps) simp
  qed
qed

lemma str_int_not_pretty: "str_int a \<noteq> CHR ''_'' # t"
proof (cases "a < 0")
  case True
  then show ?thesis by (simp add: str_int_def)
next
  case False
  have "hd (str_nat (nat a)) \<noteq> CHR ''_''" by (rule hd_str_nat)
  then have "str_nat (nat a) \<noteq> CHR ''_'' # t" by auto
  with False show ?thesis by (simp add: str_int_def)
qed

text \<open>
  \<open>py_int\<close> reads back what \<open>str_nat\<close> writes: the two conversions are the decimal
  notation.
\<close>

lemma digit_val_digit_char: "d < 10 \<Longrightarrow> digit_val (digit_char d) = int d"
proof -
  assume "d < 10"
  then have "d \<in> {0, 1, 2, 3, 4, 5, 6, 7, 8, 9}" by auto
  then show ?thesis by (auto simp: digit_val_def digit_char_def)
qed

lemma py_int_snoc: "py_int (s @ [c]) = 10 * py_int s + digit_val c"
  by (simp add: py_int_def)

lemma py_int_str_nat: "py_int (str_nat n) = int n"
proof (induction n rule: str_nat.induct)
  case (1 n)
  show ?case
  proof (cases "n < 10")
    case True
    then show ?thesis
      by (subst str_nat.simps) (simp add: py_int_def digit_val_digit_char)
  next
    case False
    with 1 have ih: "py_int (str_nat (n div 10)) = int (n div 10)" by simp
    have "n mod 10 < 10" by simp
    then have d: "digit_val (digit_char (n mod 10)) = int (n mod 10)"
      by (rule digit_val_digit_char)
    have "py_int (str_nat n) = 10 * int (n div 10) + int (n mod 10)"
      using False by (subst str_nat.simps) (simp add: py_int_snoc ih d)
    then show ?thesis by (simp add: zdiv_int zmod_int)
  qed
qed

lemma is_match_Group_iff:
  "is_match (Group c # ps) gs s \<longleftrightarrow>
     (\<exists>g gs'. gs = g # gs' \<and> g \<noteq> [] \<and> (\<forall>x \<in> set g. in_class c x) \<and>
        take (length g) s = g \<and> is_match ps gs' (drop (length g) s))"
  by (cases gs) auto

lemma take_eq_append: "take (length l) s = l \<Longrightarrow> s = l @ drop (length l) s"
  by (metis append_take_drop_id)

lemma between_groups_sound:
  assumes "re_match between_pattern var = Some gs"
  shows "\<exists>m a r b d rest. gs = [m, a, r, b, d] \<and>
           var = m @ ''_between_'' @ a @ ''-'' @ r @ ''_'' @ b @ ''-'' @ d @ rest \<and>
           m \<noteq> [] \<and> (\<forall>c \<in> set m. \<not> is_digit c) \<and>
           a \<noteq> [] \<and> (\<forall>c \<in> set a. is_digit c) \<and>
           r \<noteq> [] \<and> (\<forall>c \<in> set r. \<not> is_space c) \<and>
           b \<noteq> [] \<and> (\<forall>c \<in> set b. is_digit c) \<and>
           d \<noteq> [] \<and> (\<forall>c \<in> set d. \<not> is_space c)"
proof -
  have "is_match between_pattern gs var" using assms by (rule re_match_sound)
  then obtain m a r b d where gs: "gs = [m, a, r, b, d]"
    and m: "m \<noteq> []" "\<forall>c \<in> set m. \<not> is_digit c" "take (length m) var = m"
    and l1: "take (length ''_between_'') (drop (length m) var) = ''_between_''"
    and a: "a \<noteq> []" "\<forall>c \<in> set a. is_digit c"
       "take (length a) (drop (length ''_between_'') (drop (length m) var)) = a"
    and l2: "take (length ''-'') (drop (length a) (drop (length ''_between_'') (drop (length m) var))) = ''-''"
    and r: "r \<noteq> []" "\<forall>c \<in> set r. \<not> is_space c"
       "take (length r) (drop (length ''-'') (drop (length a) (drop (length ''_between_'') (drop (length m) var)))) = r"
    and l3: "take (length ''_'') (drop (length r) (drop (length ''-'') (drop (length a) (drop (length ''_between_'') (drop (length m) var))))) = ''_''"
    and b: "b \<noteq> []" "\<forall>c \<in> set b. is_digit c"
       "take (length b) (drop (length ''_'') (drop (length r) (drop (length ''-'') (drop (length a) (drop (length ''_between_'') (drop (length m) var)))))) = b"
    and l4: "take (length ''-'') (drop (length b) (drop (length ''_'') (drop (length r) (drop (length ''-'') (drop (length a) (drop (length ''_between_'') (drop (length m) var))))))) = ''-''"
    and d: "d \<noteq> []" "\<forall>c \<in> set d. \<not> is_space c"
       "take (length d) (drop (length ''-'') (drop (length b) (drop (length ''_'') (drop (length r) (drop (length ''-'') (drop (length a) (drop (length ''_between_'') (drop (length m) var)))))))) = d"
    unfolding between_pattern_def is_match_Group_iff is_match.simps(1,2) in_class.simps
    by blast
  note e = take_eq_append
  have "var = m @ ''_between_'' @ a @ ''-'' @ r @ ''_'' @ b @ ''-'' @ d @
      drop (length d) (drop (length ''-'') (drop (length b) (drop (length ''_'') (drop (length r) (drop (length ''-'') (drop (length a) (drop (length ''_between_'') (drop (length m) var))))))))"
    using e[OF m(3)] e[OF l1] e[OF a(3)] e[OF l2] e[OF r(3)] e[OF l3] e[OF b(3)] e[OF l4] e[OF d(3)]
    by metis
  with gs m a r b d show ?thesis by blast
qed

lemma re_match_None_iff: "re_match ps s = None \<longleftrightarrow> (\<forall>gs. \<not> is_match ps gs s)"
  using re_match_sound re_match_complete by (metis option.exhaust)

section \<open>The results of \<^verbatim>\<open>_get_meta\<close>\<close>

text \<open>
  The dictionary that the parsing block leaves holds a string under \<^verbatim>\<open>ds\<close> and
  \<^verbatim>\<open>ref\<close> and an integer under \<^verbatim>\<open>ds_no\<close> and \<^verbatim>\<open>ref_no\<close>, so the loop over the two
  roles never fails, and every dictionary that \<open>ds_get_meta\<close> returns is the parsed
  one extended by the six entries of the loop.
\<close>

lemma parse_var_roles:
  assumes "parse_var var = Inr m0"
  shows "\<exists>d dn r rn. m0 ''ds'' = Some (PStr d) \<and> m0 ''ds_no'' = Some (PInt dn) \<and>
           m0 ''ref'' = Some (PStr r) \<and> m0 ''ref_no'' = Some (PInt rn)"
  using assms by (auto simp: parse_var_def split: option.splits if_splits)

lemma parse_var_dom:
  assumes "parse_var var = Inr m0"
  shows "dom m0 = {''metric'', ''ref_no'', ''ref'', ''ds_no'', ''ds''}"
  using assms by (auto simp: parse_var_def split: option.splits if_splits)

lemma pretty_step_Inr:
  assumes "m i = Some (PStr n)" and "m (i @ ''_no'') = Some (PInt k)"
  shows "pretty_step g ds i m =
     Inr (m(i @ ''_pretty_name'' \<mapsto> PStr (fst (get_pretty_name g ds n k)),
            i @ ''_version'' \<mapsto> PStr (fst (snd (get_pretty_name g ds n k))),
            i @ ''_version_pretty_name'' \<mapsto> PStr (snd (snd (get_pretty_name g ds n k)))))"
  using assms by (simp add: pretty_step_def split: prod.splits)

lemma pretty_loop_roles:
  assumes "m0 ''ds'' = Some (PStr d)" and "m0 ''ds_no'' = Some (PInt dn)"
    and "m0 ''ref'' = Some (PStr r)" and "m0 ''ref_no'' = Some (PInt rn)"
  shows "pretty_loop g ds [''ds'', ''ref''] m0 =
     Inr (m0(''ds_pretty_name'' \<mapsto> PStr (fst (get_pretty_name g ds d dn)),
             ''ds_version'' \<mapsto> PStr (fst (snd (get_pretty_name g ds d dn))),
             ''ds_version_pretty_name'' \<mapsto> PStr (snd (snd (get_pretty_name g ds d dn))),
             ''ref_pretty_name'' \<mapsto> PStr (fst (get_pretty_name g ds r rn)),
             ''ref_version'' \<mapsto> PStr (fst (snd (get_pretty_name g ds r rn))),
             ''ref_version_pretty_name'' \<mapsto> PStr (snd (snd (get_pretty_name g ds r rn)))))"
proof -
  let ?m1 = "m0(''ds_pretty_name'' \<mapsto> PStr (fst (get_pretty_name g ds d dn)),
             ''ds_version'' \<mapsto> PStr (fst (snd (get_pretty_name g ds d dn))),
             ''ds_version_pretty_name'' \<mapsto> PStr (snd (snd (get_pretty_name g ds d dn))))"
  have s1: "pretty_step g ds ''ds'' m0 = Inr ?m1"
    using pretty_step_Inr[of m0 "''ds''" d dn g ds] assms(1,2) by simp
  have r1: "?m1 ''ref'' = Some (PStr r)" using assms(3) by simp
  have r2: "?m1 (''ref'' @ ''_no'') = Some (PInt rn)" using assms(4) by simp
  have s2: "pretty_step g ds ''ref'' ?m1 =
     Inr (?m1(''ref_pretty_name'' \<mapsto> PStr (fst (get_pretty_name g ds r rn)),
             ''ref_version'' \<mapsto> PStr (fst (snd (get_pretty_name g ds r rn))),
             ''ref_version_pretty_name'' \<mapsto> PStr (snd (snd (get_pretty_name g ds r rn)))))"
    using pretty_step_Inr[of ?m1 "''ref''" r rn g ds] r1 r2 by simp
  show ?thesis by (simp add: s1 s2)
qed

lemma ds_get_meta_Inr:
  assumes "ds_get_meta g ds var = Inr meta"
  shows "var \<in> set (data_vars ds) \<and>
    (\<exists>m0 d dn r rn. parse_var var = Inr m0 \<and>
       m0 ''ds'' = Some (PStr d) \<and> m0 ''ds_no'' = Some (PInt dn) \<and>
       m0 ''ref'' = Some (PStr r) \<and> m0 ''ref_no'' = Some (PInt rn) \<and>
       meta = m0(''ds_pretty_name'' \<mapsto> PStr (fst (get_pretty_name g ds d dn)),
             ''ds_version'' \<mapsto> PStr (fst (snd (get_pretty_name g ds d dn))),
             ''ds_version_pretty_name'' \<mapsto> PStr (snd (snd (get_pretty_name g ds d dn))),
             ''ref_pretty_name'' \<mapsto> PStr (fst (get_pretty_name g ds r rn)),
             ''ref_version'' \<mapsto> PStr (fst (snd (get_pretty_name g ds r rn))),
             ''ref_version_pretty_name'' \<mapsto> PStr (snd (snd (get_pretty_name g ds r rn)))))"
proof -
  from assms have mem: "var \<in> set (data_vars ds)"
    by (auto simp: ds_get_meta_def split: if_splits)
  with assms obtain m0 where p: "parse_var var = Inr m0"
    and l: "pretty_loop g ds [''ds'', ''ref''] m0 = Inr meta"
    by (auto simp: ds_get_meta_def split: sum.splits)
  from parse_var_roles[OF p] obtain d dn r rn where
    roles: "m0 ''ds'' = Some (PStr d)" "m0 ''ds_no'' = Some (PInt dn)"
           "m0 ''ref'' = Some (PStr r)" "m0 ''ref_no'' = Some (PInt rn)" by blast
  from l pretty_loop_roles[OF roles, of g ds] mem p roles show ?thesis by auto
qed

lemma ds_get_meta_parse:
  assumes "var \<in> set (data_vars ds)" and "parse_var var = Inr m0"
  shows "\<exists>meta. ds_get_meta g ds var = Inr meta"
proof -
  from parse_var_roles[OF assms(2)] obtain d dn r rn where
    roles: "m0 ''ds'' = Some (PStr d)" "m0 ''ds_no'' = Some (PInt dn)"
           "m0 ''ref'' = Some (PStr r)" "m0 ''ref_no'' = Some (PInt rn)" by blast
  show ?thesis using assms pretty_loop_roles[OF roles, of g ds]
    by (simp add: ds_get_meta_def)
qed

section \<open>The claims about \<^verbatim>\<open>_get_meta\<close>\<close>

lemma n_obs_no_match: "re_match between_pattern ''n_obs'' = None"
  by (simp add: between_pattern_def is_digit_def is_space_def)

lemma parse_var_n_obs:
  "parse_var ''n_obs'' =
     Inr [''metric'' \<mapsto> PStr ''n_obs'', ''ref_no'' \<mapsto> PInt 1, ''ref'' \<mapsto> PStr ''GLDAS'',
          ''ds_no'' \<mapsto> PInt 1, ''ds'' \<mapsto> PStr ''GLDAS'']"
  by (simp add: parse_var_def n_obs_no_match)

text \<open>
  Claim C5. For every dataset attributes mapping, with \<^verbatim>\<open>n_obs\<close> among the data variables
  of the dataset, resolving \<^verbatim>\<open>n_obs\<close> yields a record with metric \<^verbatim>\<open>n_obs\<close>, reference
  number 1, dataset number 1 and the name \<^verbatim>\<open>GLDAS\<close> for both the reference and the
  dataset, whatever the attributes and the lookup tables hold.
\<close>

theorem n_obs_fixed_record:
  assumes "''n_obs'' \<in> set (data_vars ds)"
  shows "\<exists>meta. ds_get_meta g ds ''n_obs'' = Inr meta \<and>
           meta ''metric'' = Some (PStr ''n_obs'') \<and>
           meta ''ref_no'' = Some (PInt 1) \<and> meta ''ds_no'' = Some (PInt 1) \<and>
           meta ''ref'' = Some (PStr ''GLDAS'') \<and> meta ''ds'' = Some (PStr ''GLDAS'')"
proof -
  from ds_get_meta_parse[OF assms parse_var_n_obs] obtain meta
    where m: "ds_get_meta g ds ''n_obs'' = Inr meta" by blast
  from ds_get_meta_Inr[OF m] show ?thesis
    using m by (auto simp: parse_var_n_obs)
qed

theorem n_obs_fixed_record_witness:
  "\<exists>meta. ds_get_meta \<lparr>dataset_pretty_names = Map.empty, dataset_version_pretty_names = Map.empty\<rparr>
       \<lparr>data_vars = [''lat'', ''n_obs''], attrs = [''val_dc_version0'' \<mapsto> ''v1'']\<rparr> ''n_obs'' = Inr meta \<and>
           meta ''metric'' = Some (PStr ''n_obs'') \<and>
           meta ''ref_no'' = Some (PInt 1) \<and> meta ''ds_no'' = Some (PInt 1) \<and>
           meta ''ref'' = Some (PStr ''GLDAS'') \<and> meta ''ds'' = Some (PStr ''GLDAS'')"
  using n_obs_fixed_record[of "\<lparr>data_vars = [''lat'', ''n_obs''], attrs = [''val_dc_version0'' \<mapsto> ''v1'']\<rparr>"
     "\<lparr>dataset_pretty_names = Map.empty, dataset_version_pretty_names = Map.empty\<rparr>"]
  by simp

lemma parse_var_match:
  assumes "re_match between_pattern var = Some [m, a, r, b, d]"
  shows "parse_var var =
     Inr [''metric'' \<mapsto> PStr m, ''ref_no'' \<mapsto> PInt (py_int a), ''ref'' \<mapsto> PStr r,
          ''ds_no'' \<mapsto> PInt (py_int b), ''ds'' \<mapsto> PStr d]"
  using assms by (simp add: parse_var_def)

text \<open>
  Claim C4. For every variable name that is among the data variables of the dataset and
  that the pattern \<^verbatim>\<open><metric>_between_<int>-<name>_<int>-<name>\<close> matches, resolving
  returns a record, and its entries \<^verbatim>\<open>metric\<close>, \<^verbatim>\<open>ref_no\<close>, \<^verbatim>\<open>ref\<close>, \<^verbatim>\<open>ds_no\<close>
  and \<^verbatim>\<open>ds\<close> are the five groups of the match in this order, the two numbers read as
  integers.
\<close>

theorem between_groups_resolved:
  assumes "var \<in> set (data_vars ds)"
    and "re_match between_pattern var = Some gs"
  shows "\<exists>m a r b d meta. gs = [m, a, r, b, d] \<and>
           ds_get_meta g ds var = Inr meta \<and>
           meta ''metric'' = Some (PStr m) \<and>
           meta ''ref_no'' = Some (PInt (py_int a)) \<and>
           meta ''ref'' = Some (PStr r) \<and>
           meta ''ds_no'' = Some (PInt (py_int b)) \<and>
           meta ''ds'' = Some (PStr d)"
proof -
  from between_groups_sound[OF assms(2)] obtain m a r b d where gs: "gs = [m, a, r, b, d]"
    by blast
  note p = parse_var_match[OF assms(2)[unfolded gs]]
  from ds_get_meta_parse[OF assms(1) p] obtain meta
    where m: "ds_get_meta g ds var = Inr meta" by blast
  from ds_get_meta_Inr[OF m] have
    "meta ''metric'' = Some (PStr m) \<and>
     meta ''ref_no'' = Some (PInt (py_int a)) \<and>
     meta ''ref'' = Some (PStr r) \<and>
     meta ''ds_no'' = Some (PInt (py_int b)) \<and>
     meta ''ds'' = Some (PStr d)"
    by (elim conjE exE) (clarsimp simp: p)
  with gs m show ?thesis by blast
qed

lemma example_match:
  "re_match between_pattern ''rmsd_between_3-ISMN_1-C3S'' = Some [''rmsd'', ''3'', ''ISMN'', ''1'', ''C3S'']"
  by (simp add: between_pattern_def is_digit_def is_space_def)

theorem between_groups_resolved_witness:
  "\<exists>m a r b d meta. [''rmsd'', ''3'', ''ISMN'', ''1'', ''C3S''] = [m, a, r, b, d] \<and>
     ds_get_meta \<lparr>dataset_pretty_names = Map.empty, dataset_version_pretty_names = Map.empty\<rparr>
       \<lparr>data_vars = [''rmsd_between_3-ISMN_1-C3S''], attrs = Map.empty\<rparr>
       ''rmsd_between_3-ISMN_1-C3S'' = Inr meta \<and>
     meta ''metric'' = Some (PStr m) \<and>
     meta ''ref_no'' = Some (PInt (py_int a)) \<and>
     meta ''ref'' = Some (PStr r) \<and>
     meta ''ds_no'' = Some (PInt (py_int b)) \<and>
     meta ''ds'' = Some (PStr d)"
  using between_groups_resolved[of "''rmsd_between_3-ISMN_1-C3S''"
      "\<lparr>data_vars = [''rmsd_between_3-ISMN_1-C3S''], attrs = Map.empty\<rparr>"
      "[''rmsd'', ''3'', ''ISMN'', ''1'', ''C3S'']"
      "\<lparr>dataset_pretty_names = Map.empty, dataset_version_pretty_names = Map.empty\<rparr>"]
    example_match
  by simp

text \<open>
  Claim C6. For every variable name that is among the data variables of the dataset, is
  not \<^verbatim>\<open>n_obs\<close> and is not matched by the pattern, resolving fails, and the message of
  the exception carries the name. (The source raises the builtin \<^verbatim>\<open>Exception\<close>; this
  is the failure that the specification calls a parse error.)
\<close>

theorem no_match_raises:
  assumes "var \<in> set (data_vars ds)" and "var \<noteq> ''n_obs''"
    and "re_match between_pattern var = None"
  shows "ds_get_meta g ds var =
           Inl (Exception (''The given var '' @ [CHR 0x27] @ var @ [CHR 0x27] @
                           '' does not match the regex pattern.''))"
  using assms by (simp add: ds_get_meta_def parse_var_def no_match_msg_def)

lemma not_a_valid_name_no_match: "re_match between_pattern ''not_a_valid_name'' = None"
  by (simp add: between_pattern_def is_digit_def is_space_def)

theorem no_match_raises_witness:
  "ds_get_meta \<lparr>dataset_pretty_names = Map.empty, dataset_version_pretty_names = Map.empty\<rparr>
       \<lparr>data_vars = [''not_a_valid_name''], attrs = Map.empty\<rparr> ''not_a_valid_name'' =
     Inl (Exception (''The given var '' @ [CHR 0x27] @ ''not_a_valid_name'' @ [CHR 0x27] @
                           '' does not match the regex pattern.''))"
  using no_match_raises[of "''not_a_valid_name''"
      "\<lparr>data_vars = [''not_a_valid_name''], attrs = Map.empty\<rparr>"
      "\<lparr>dataset_pretty_names = Map.empty, dataset_version_pretty_names = Map.empty\<rparr>"]
    not_a_valid_name_no_match
  by simp

text \<open>
  Claim C7. Whenever resolving returns a record, the record has every one of its eleven
  entries: \<^verbatim>\<open>metric\<close>, \<^verbatim>\<open>ref_no\<close>, \<^verbatim>\<open>ds_no\<close>, \<^verbatim>\<open>ref\<close>, \<^verbatim>\<open>ds\<close>, and for each of
  the two roles the pretty name, the version and the pretty name of the version. The
  record is a dictionary that the source fills step by step, so the statement is about the
  keys that the returned dictionary holds.
\<close>

theorem all_fields_populated:
  assumes "ds_get_meta g ds var = Inr meta"
  shows "dom meta = {''ref_version_pretty_name'', ''ref_version'', ''ref_pretty_name'',
                     ''ds_version_pretty_name'', ''ds_version'', ''ds_pretty_name'',
                     ''metric'', ''ref_no'', ''ref'', ''ds_no'', ''ds''}"
proof -
  from ds_get_meta_Inr[OF assms] obtain m0 d dn r rn where
    p: "parse_var var = Inr m0" and
    meta: "meta = m0(''ds_pretty_name'' \<mapsto> PStr (fst (get_pretty_name g ds d dn)),
             ''ds_version'' \<mapsto> PStr (fst (snd (get_pretty_name g ds d dn))),
             ''ds_version_pretty_name'' \<mapsto> PStr (snd (snd (get_pretty_name g ds d dn))),
             ''ref_pretty_name'' \<mapsto> PStr (fst (get_pretty_name g ds r rn)),
             ''ref_version'' \<mapsto> PStr (fst (snd (get_pretty_name g ds r rn))),
             ''ref_version_pretty_name'' \<mapsto> PStr (snd (snd (get_pretty_name g ds r rn))))"
    by blast
  have "dom meta = {''ref_version_pretty_name'', ''ref_version'', ''ref_pretty_name'',
      ''ds_version_pretty_name'', ''ds_version'', ''ds_pretty_name''} \<union> dom m0"
    unfolding meta by (simp only: dom_fun_upd option.distinct if_False Un_insert_left Un_empty_left)
  also have "dom m0 = {''metric'', ''ref_no'', ''ref'', ''ds_no'', ''ds''}"
    using p by (rule parse_var_dom)
  finally show ?thesis by (simp only: Un_insert_left Un_empty_left)
qed



theorem all_fields_populated_witness:
  "\<exists>meta. ds_get_meta \<lparr>dataset_pretty_names = Map.empty, dataset_version_pretty_names = Map.empty\<rparr>
       \<lparr>data_vars = [''n_obs''], attrs = Map.empty\<rparr> ''n_obs'' = Inr meta \<and>
     dom meta = {''ref_version_pretty_name'', ''ref_version'', ''ref_pretty_name'',
                     ''ds_version_pretty_name'', ''ds_version'', ''ds_pretty_name'',
                     ''metric'', ''ref_no'', ''ref'', ''ds_no'', ''ds''}"
proof -
  have "''n_obs'' \<in> set (data_vars \<lparr>data_vars = [''n_obs''], attrs = Map.empty\<rparr>)" by simp
  from ds_get_meta_parse[OF this parse_var_n_obs] obtain meta where
    m: "ds_get_meta \<lparr>dataset_pretty_names = Map.empty, dataset_version_pretty_names = Map.empty\<rparr>
       \<lparr>data_vars = [''n_obs''], attrs = Map.empty\<rparr> ''n_obs'' = Inr meta" by blast
  from m all_fields_populated[OF m] show ?thesis by blast
qed

section \<open>The check of the variable list\<close>

lemma ds_get_meta_data_vars_irrelevant:
  assumes "var \<in> set (data_vars ds)" and "var \<in> set vs"
  shows "ds_get_meta g (ds\<lparr>data_vars := vs\<rparr>) var = ds_get_meta g ds var"
proof -
  have gp: "\<And>n k. get_pretty_name g (ds\<lparr>data_vars := vs\<rparr>) n k = get_pretty_name g ds n k"
    by (simp add: get_pretty_name_def cong: option.case_cong)
  have st: "\<And>i m. pretty_step g (ds\<lparr>data_vars := vs\<rparr>) i m = pretty_step g ds i m"
    by (simp add: pretty_step_def gp split: option.splits pyval.splits)
  have lp: "\<And>is m. pretty_loop g (ds\<lparr>data_vars := vs\<rparr>) is m = pretty_loop g ds is m"
  proof -
    fix "is" m show "pretty_loop g (ds\<lparr>data_vars := vs\<rparr>) is m = pretty_loop g ds is m"
      by (induction "is" arbitrary: m) (simp_all add: st split: sum.splits)
  qed
  show ?thesis using assms
    by (cases "parse_var var") (simp_all add: ds_get_meta_def lp del: pretty_loop.simps)
qed

text \<open>
  Claim C8 says that resolving does not itself check that the variable name is among the
  data variables of the dataset, so that it behaves the same whether or not the name is
  in the list. The source checks it first of all: \<^verbatim>\<open>if not var in ds.data_vars: raise\<close>.
  With an empty list of data variables the name \<^verbatim>\<open>n_obs\<close> is refused, with the list
  that holds it the same call returns a record.
\<close>

theorem presence_checked_by_resolve_counterexample:
  "ds_get_meta \<lparr>dataset_pretty_names = Map.empty, dataset_version_pretty_names = Map.empty\<rparr>
       \<lparr>data_vars = [], attrs = Map.empty\<rparr> ''n_obs''
     = Inl (Exception (''The given var '' @ [CHR 0x27] @ ''n_obs'' @ [CHR 0x27] @
                        '' is not contained in the dataset.'')) \<and>
   ds_get_meta \<lparr>dataset_pretty_names = Map.empty, dataset_version_pretty_names = Map.empty\<rparr>
       \<lparr>data_vars = [], attrs = Map.empty\<rparr> ''n_obs''
   \<noteq> ds_get_meta \<lparr>dataset_pretty_names = Map.empty, dataset_version_pretty_names = Map.empty\<rparr>
       \<lparr>data_vars = [''n_obs''], attrs = Map.empty\<rparr> ''n_obs''"
proof -
  have a: "ds_get_meta \<lparr>dataset_pretty_names = Map.empty, dataset_version_pretty_names = Map.empty\<rparr>
       \<lparr>data_vars = [], attrs = Map.empty\<rparr> ''n_obs'' = Inl (Exception (not_contained_msg ''n_obs''))"
    by (simp add: ds_get_meta_def)
  have "''n_obs'' \<in> set (data_vars \<lparr>data_vars = [''n_obs''], attrs = Map.empty\<rparr>)" by simp
  from ds_get_meta_parse[OF this parse_var_n_obs] obtain meta where
    b: "ds_get_meta \<lparr>dataset_pretty_names = Map.empty, dataset_version_pretty_names = Map.empty\<rparr>
       \<lparr>data_vars = [''n_obs''], attrs = Map.empty\<rparr> ''n_obs'' = Inr meta" by blast
  show ?thesis unfolding a b by (simp add: not_contained_msg_def)
qed

text \<open>
  Claim C8 as amended. Resolving itself checks that the variable name is among the data
  variables of the dataset and fails, with an exception whose message names the variable,
  when it is not; for a name that is in the list the result does not depend on what else
  the list holds.
\<close>

theorem presence_checked_by_resolve:
  "(var \<notin> set (data_vars ds) \<longrightarrow>
      ds_get_meta g ds var =
        Inl (Exception (''The given var '' @ [CHR 0x27] @ var @ [CHR 0x27] @
                        '' is not contained in the dataset.''))) \<and>
   (var \<in> set (data_vars ds) \<and> var \<in> set vs \<longrightarrow>
      ds_get_meta g (ds\<lparr>data_vars := vs\<rparr>) var = ds_get_meta g ds var)"
  using ds_get_meta_data_vars_irrelevant[of var ds vs g]
  by (simp add: ds_get_meta_def not_contained_msg_def)

theorem presence_checked_by_resolve_witness:
  "ds_get_meta \<lparr>dataset_pretty_names = Map.empty, dataset_version_pretty_names = Map.empty\<rparr>
       \<lparr>data_vars = [''lat''], attrs = Map.empty\<rparr> ''n_obs'' =
     Inl (Exception (''The given var '' @ [CHR 0x27] @ ''n_obs'' @ [CHR 0x27] @
                        '' is not contained in the dataset.'')) \<and>
   ds_get_meta \<lparr>dataset_pretty_names = Map.empty, dataset_version_pretty_names = Map.empty\<rparr>
       (\<lparr>data_vars = [''n_obs''], attrs = Map.empty\<rparr>\<lparr>data_vars := [''lat'', ''n_obs'']\<rparr>) ''n_obs'' =
   ds_get_meta \<lparr>dataset_pretty_names = Map.empty, dataset_version_pretty_names = Map.empty\<rparr>
       \<lparr>data_vars = [''n_obs''], attrs = Map.empty\<rparr> ''n_obs''"
  using presence_checked_by_resolve[of "''n_obs''" "\<lparr>data_vars = [''lat''], attrs = Map.empty\<rparr>"
      "\<lparr>dataset_pretty_names = Map.empty, dataset_version_pretty_names = Map.empty\<rparr>" "[]"]
    presence_checked_by_resolve[of "''n_obs''" "\<lparr>data_vars = [''n_obs''], attrs = Map.empty\<rparr>"
      "\<lparr>dataset_pretty_names = Map.empty, dataset_version_pretty_names = Map.empty\<rparr>" "[''lat'', ''n_obs'']"]
  by simp

section \<open>The fallback chains of \<^verbatim>\<open>_get_pretty_name\<close>\<close>

text \<open>
  What the loop stores for a role, read off the returned dictionary: the three results of
  \<open>get_pretty_name\<close> on the short name and the number of that role.
\<close>

lemma get_pretty_name_fst:
  "fst (get_pretty_name g ds n k) =
     (case attrs ds (''val_dc_pretty_name'' @ str_int (k - 1)) of
        Some v \<Rightarrow> v
      | None \<Rightarrow> (case dataset_pretty_names g n of Some v \<Rightarrow> v | None \<Rightarrow> n))"
  by (simp add: get_pretty_name_def Let_def split: prod.splits)

lemma get_pretty_name_snd:
  "snd (get_pretty_name g ds n k) =
     (case attrs ds (''val_dc_version'' @ str_int (k - 1)) of
        Some version \<Rightarrow>
          (version,
           case attrs ds (''val_dc_version_pretty_name'' @ str_int (k - 1)) of
             Some v \<Rightarrow> v
           | None \<Rightarrow> (case dataset_version_pretty_names g version of
                         Some v \<Rightarrow> v | None \<Rightarrow> version))
      | None \<Rightarrow> (''unknown'', ''unknown version''))"
  by (simp add: get_pretty_name_def Let_def split: prod.splits)

lemma ds_get_meta_role:
  assumes "ds_get_meta g ds var = Inr meta" and "role = ''ref'' \<or> role = ''ds''"
  shows "\<exists>m0 n k. parse_var var = Inr m0 \<and>
           m0 role = Some (PStr n) \<and> m0 (role @ ''_no'') = Some (PInt k) \<and>
           meta role = Some (PStr n) \<and> meta (role @ ''_no'') = Some (PInt k) \<and>
           meta (role @ ''_pretty_name'') = Some (PStr (fst (get_pretty_name g ds n k))) \<and>
           meta (role @ ''_version'') = Some (PStr (fst (snd (get_pretty_name g ds n k)))) \<and>
           meta (role @ ''_version_pretty_name'') =
             Some (PStr (snd (snd (get_pretty_name g ds n k))))"
proof -
  from ds_get_meta_Inr[OF assms(1)] obtain m0 d dn r rn where
    p: "parse_var var = Inr m0" and
    roles: "m0 ''ds'' = Some (PStr d)" "m0 ''ds_no'' = Some (PInt dn)"
           "m0 ''ref'' = Some (PStr r)" "m0 ''ref_no'' = Some (PInt rn)" and
    meta: "meta = m0(''ds_pretty_name'' \<mapsto> PStr (fst (get_pretty_name g ds d dn)),
             ''ds_version'' \<mapsto> PStr (fst (snd (get_pretty_name g ds d dn))),
             ''ds_version_pretty_name'' \<mapsto> PStr (snd (snd (get_pretty_name g ds d dn))),
             ''ref_pretty_name'' \<mapsto> PStr (fst (get_pretty_name g ds r rn)),
             ''ref_version'' \<mapsto> PStr (fst (snd (get_pretty_name g ds r rn))),
             ''ref_version_pretty_name'' \<mapsto> PStr (snd (snd (get_pretty_name g ds r rn))))"
    by blast
  from assms(2) show ?thesis
  proof
    assume role: "role = ''ref''"
    have "m0 role = Some (PStr r) \<and> m0 (role @ ''_no'') = Some (PInt rn) \<and>
           meta role = Some (PStr r) \<and> meta (role @ ''_no'') = Some (PInt rn) \<and>
           meta (role @ ''_pretty_name'') = Some (PStr (fst (get_pretty_name g ds r rn))) \<and>
           meta (role @ ''_version'') = Some (PStr (fst (snd (get_pretty_name g ds r rn)))) \<and>
           meta (role @ ''_version_pretty_name'') =
             Some (PStr (snd (snd (get_pretty_name g ds r rn))))"
      unfolding role meta using roles by simp
    with p show ?thesis by blast
  next
    assume role: "role = ''ds''"
    have "m0 role = Some (PStr d) \<and> m0 (role @ ''_no'') = Some (PInt dn) \<and>
           meta role = Some (PStr d) \<and> meta (role @ ''_no'') = Some (PInt dn) \<and>
           meta (role @ ''_pretty_name'') = Some (PStr (fst (get_pretty_name g ds d dn))) \<and>
           meta (role @ ''_version'') = Some (PStr (fst (snd (get_pretty_name g ds d dn)))) \<and>
           meta (role @ ''_version_pretty_name'') =
             Some (PStr (snd (snd (get_pretty_name g ds d dn))))"
      unfolding role meta using roles by simp
    with p show ?thesis by blast
  qed
qed

lemma ds_get_meta_succeeds_anyway:
  assumes "ds_get_meta g ds var = Inr meta"
  shows "\<exists>meta'. ds_get_meta g' (ds\<lparr>attrs := a'\<rparr>) var = Inr meta'"
proof -
  from ds_get_meta_Inr[OF assms] obtain m0 where
    "var \<in> set (data_vars ds)" and p: "parse_var var = Inr m0" by blast
  then have "var \<in> set (data_vars (ds\<lparr>attrs := a'\<rparr>))" by simp
  from ds_get_meta_parse[OF this p] show ?thesis .
qed

text \<open>
  Claim C1. For every dataset attributes mapping and for each role (\<^verbatim>\<open>ref\<close> and \<^verbatim>\<open>ds\<close>)
  with short name \<open>n\<close> and position number \<open>k\<close>, the pretty name of the role in the
  resolved record is the attribute \<^verbatim>\<open>val_dc_pretty_name\<close> followed by \<open>k - 1\<close> when the
  attributes have it, otherwise the entry of the table of pretty names for \<open>n\<close> when
  there is one, otherwise \<open>n\<close> itself; and resolving a name does not fail for lack of a
  pretty name: when it succeeds for some attributes and tables, it succeeds for all.
\<close>

theorem pretty_name_fallback:
  assumes "ds_get_meta g ds var = Inr meta" and "role = ''ref'' \<or> role = ''ds''"
  shows "(\<exists>n k. meta role = Some (PStr n) \<and> meta (role @ ''_no'') = Some (PInt k) \<and>
            meta (role @ ''_pretty_name'') =
              Some (PStr (case attrs ds (''val_dc_pretty_name'' @ str_int (k - 1)) of
                            Some v \<Rightarrow> v
                          | None \<Rightarrow> (case dataset_pretty_names g n of
                                        Some v \<Rightarrow> v
                                      | None \<Rightarrow> n)))) \<and>
         (\<exists>meta'. ds_get_meta g' (ds\<lparr>attrs := a'\<rparr>) var = Inr meta')"
proof -
  from ds_get_meta_role[OF assms] obtain n k where
    "meta role = Some (PStr n)" "meta (role @ ''_no'') = Some (PInt k)"
    "meta (role @ ''_pretty_name'') = Some (PStr (fst (get_pretty_name g ds n k)))"
    by blast
  then have "\<exists>n k. meta role = Some (PStr n) \<and> meta (role @ ''_no'') = Some (PInt k) \<and>
            meta (role @ ''_pretty_name'') =
              Some (PStr (case attrs ds (''val_dc_pretty_name'' @ str_int (k - 1)) of
                            Some v \<Rightarrow> v
                          | None \<Rightarrow> (case dataset_pretty_names g n of
                                        Some v \<Rightarrow> v
                                      | None \<Rightarrow> n)))"
    unfolding get_pretty_name_fst by blast
  with ds_get_meta_succeeds_anyway[OF assms(1)] show ?thesis by blast
qed

lemma example_parse:
  "parse_var ''R_between_1-ISMN_2-SMAP'' =
     Inr [''metric'' \<mapsto> PStr ''R'', ''ref_no'' \<mapsto> PInt 1, ''ref'' \<mapsto> PStr ''ISMN'',
          ''ds_no'' \<mapsto> PInt 2, ''ds'' \<mapsto> PStr ''SMAP'']"
  by (simp add: parse_var_def between_pattern_def is_digit_def is_space_def py_int_def
      digit_val_def)

lemma example_meta:
  "\<exists>meta. ds_get_meta example_tables example_ds ''R_between_1-ISMN_2-SMAP'' = Inr meta"
  by (rule ds_get_meta_parse[OF _ example_parse]) (simp add: example_ds_def)

theorem pretty_name_fallback_witness:
  "\<exists>meta. ds_get_meta example_tables example_ds ''R_between_1-ISMN_2-SMAP'' = Inr meta \<and>
     meta ''ref'' = Some (PStr ''ISMN'') \<and> meta ''ref_no'' = Some (PInt 1) \<and>
     meta ''ref_pretty_name'' = Some (PStr ''In Situ Network'')"
proof -
  from example_meta obtain meta where
    m: "ds_get_meta example_tables example_ds ''R_between_1-ISMN_2-SMAP'' = Inr meta" by blast
  from ds_get_meta_Inr[OF m] have r: "meta ''ref'' = Some (PStr ''ISMN'')"
    "meta ''ref_no'' = Some (PInt 1)"
    by (auto simp: example_parse)
  from pretty_name_fallback[OF m, of "''ref''"] r
  have "meta ''ref_pretty_name'' = Some (PStr ''In Situ Network'')"
    by (simp add: example_ds_def str_int_def str_nat.simps digit_char_def)
  with m r show ?thesis by blast
qed

lemma pretty_key_fresh:
  "''val_dc_pretty_name'' @ s \<noteq> ''val_dc_version_pretty_name'' @ t"
  by simp

lemma version_key_fresh:
  "''val_dc_version'' @ str_int a \<noteq> ''val_dc_version_pretty_name'' @ t"
  using str_int_not_pretty[of a] by simp

lemma get_pretty_name_version_pretty_unread:
  assumes "attrs ds (''val_dc_version'' @ str_int (k - 1)) = None"
  shows "get_pretty_name g
           (ds\<lparr>attrs := (attrs ds)(''val_dc_version_pretty_name'' @ str_int (k - 1) := x)\<rparr>) n k
         = get_pretty_name g ds n k"
  using assms pretty_key_fresh[of "str_int (k - 1)" "str_int (k - 1)"]
    version_key_fresh[of "k - 1" "str_int (k - 1)"]
  by (simp add: get_pretty_name_def)

lemma example_roles:
  assumes "ds_get_meta example_tables example_ds ''R_between_1-ISMN_2-SMAP'' = Inr meta"
  shows "meta ''ref_no'' = Some (PInt 1)" and "meta ''ds_no'' = Some (PInt 2)"
  using ds_get_meta_Inr[OF assms] by (auto simp: example_parse)

lemma example_keys:
  "str_int (1 - 1) = ''0''" "str_int (2 - 1) = ''1''"
  by (simp_all add: str_int_def str_nat.simps digit_char_def)

text \<open>
  Claim C2. For every dataset attributes mapping and for each role with position number
  \<open>k\<close>: when the attributes have no key \<^verbatim>\<open>val_dc_version\<close> followed by \<open>k - 1\<close>, the
  version of the role is \<^verbatim>\<open>unknown\<close>, its pretty name is \<^verbatim>\<open>unknown version\<close>, and the key
  \<^verbatim>\<open>val_dc_version_pretty_name\<close> followed by \<open>k - 1\<close> is not read: whatever is stored or
  not stored under it (\<open>x\<close> below), resolving succeeds with the same three entries for
  the role.
\<close>

theorem version_absent_unknown:
  assumes "ds_get_meta g ds var = Inr meta" and "role = ''ref'' \<or> role = ''ds''"
    and "meta (role @ ''_no'') = Some (PInt k)"
    and "attrs ds (''val_dc_version'' @ str_int (k - 1)) = None"
  shows "meta (role @ ''_version'') = Some (PStr ''unknown'') \<and>
         meta (role @ ''_version_pretty_name'') = Some (PStr ''unknown version'') \<and>
         (\<exists>meta'. ds_get_meta g
             (ds\<lparr>attrs := (attrs ds)(''val_dc_version_pretty_name'' @ str_int (k - 1) := x)\<rparr>)
             var = Inr meta' \<and>
           meta' (role @ ''_pretty_name'') = meta (role @ ''_pretty_name'') \<and>
           meta' (role @ ''_version'') = meta (role @ ''_version'') \<and>
           meta' (role @ ''_version_pretty_name'') = meta (role @ ''_version_pretty_name''))"
proof -
  let ?ds' = "ds\<lparr>attrs := (attrs ds)(''val_dc_version_pretty_name'' @ str_int (k - 1) := x)\<rparr>"
  from ds_get_meta_role[OF assms(1,2)] assms(3) obtain m0 n where
    p: "parse_var var = Inr m0" and m0: "m0 role = Some (PStr n)" "m0 (role @ ''_no'') = Some (PInt k)"
    and e: "meta (role @ ''_pretty_name'') = Some (PStr (fst (get_pretty_name g ds n k)))"
       "meta (role @ ''_version'') = Some (PStr (fst (snd (get_pretty_name g ds n k))))"
       "meta (role @ ''_version_pretty_name'') = Some (PStr (snd (snd (get_pretty_name g ds n k))))"
    by auto
  have u: "snd (get_pretty_name g ds n k) = (''unknown'', ''unknown version'')"
    using assms(4) by (simp add: get_pretty_name_snd)
  from ds_get_meta_succeeds_anyway[OF assms(1), of g "(attrs ds)(''val_dc_version_pretty_name'' @ str_int (k - 1) := x)"]
  obtain meta' where m': "ds_get_meta g ?ds' var = Inr meta'" by blast
  from ds_get_meta_role[OF m' assms(2)] p m0 have
    e': "meta' (role @ ''_pretty_name'') = Some (PStr (fst (get_pretty_name g ?ds' n k)))"
       "meta' (role @ ''_version'') = Some (PStr (fst (snd (get_pretty_name g ?ds' n k))))"
       "meta' (role @ ''_version_pretty_name'') = Some (PStr (snd (snd (get_pretty_name g ?ds' n k))))"
    by auto
  note same = get_pretty_name_version_pretty_unread[OF assms(4), of g x n]
  from e e' u m' show ?thesis unfolding same by auto
qed


theorem version_absent_unknown_witness:
  "\<exists>meta. ds_get_meta example_tables example_ds ''R_between_1-ISMN_2-SMAP'' = Inr meta \<and>
     meta ''ds_no'' = Some (PInt 2) \<and> attrs example_ds ''val_dc_version1'' = None \<and>
     meta ''ds_version'' = Some (PStr ''unknown'') \<and>
     meta ''ds_version_pretty_name'' = Some (PStr ''unknown version'')"
proof -
  from example_meta obtain meta where
    m: "ds_get_meta example_tables example_ds ''R_between_1-ISMN_2-SMAP'' = Inr meta" by blast
  have n: "meta (''ds'' @ ''_no'') = Some (PInt 2)" using example_roles(2)[OF m] by simp
  have a: "attrs example_ds (''val_dc_version'' @ str_int (2 - 1)) = None"
    unfolding example_keys by (simp add: example_ds_def)
  from version_absent_unknown[OF m _ n a, of None] example_roles(2)[OF m] a m
  show ?thesis unfolding example_keys by auto
qed

text \<open>
  Claim C3. For every dataset attributes mapping and for each role with position number
  \<open>k\<close>: when the attributes have the key \<^verbatim>\<open>val_dc_version\<close> followed by \<open>k - 1\<close> with
  value \<open>v\<close>, the pretty name of the version of the role is the attribute
  \<^verbatim>\<open>val_dc_version_pretty_name\<close> followed by \<open>k - 1\<close> when the attributes have it,
  otherwise the entry of the table of version names for \<open>v\<close> when there is one,
  otherwise \<open>v\<close> itself; and this never makes resolving fail: it succeeds for all
  attributes and tables once it succeeds for some.
\<close>

theorem version_present_fallback:
  assumes "ds_get_meta g ds var = Inr meta" and "role = ''ref'' \<or> role = ''ds''"
    and "meta (role @ ''_no'') = Some (PInt k)"
    and "attrs ds (''val_dc_version'' @ str_int (k - 1)) = Some v"
  shows "meta (role @ ''_version'') = Some (PStr v) \<and>
         meta (role @ ''_version_pretty_name'') =
           Some (PStr (case attrs ds (''val_dc_version_pretty_name'' @ str_int (k - 1)) of
                         Some w \<Rightarrow> w
                       | None \<Rightarrow> (case dataset_version_pretty_names g v of
                                     Some w \<Rightarrow> w
                                   | None \<Rightarrow> v))) \<and>
         (\<exists>meta'. ds_get_meta g' (ds\<lparr>attrs := a'\<rparr>) var = Inr meta')"
proof -
  from ds_get_meta_role[OF assms(1,2)] assms(3) obtain n where
    e: "meta (role @ ''_version'') = Some (PStr (fst (snd (get_pretty_name g ds n k))))"
       "meta (role @ ''_version_pretty_name'') = Some (PStr (snd (snd (get_pretty_name g ds n k))))"
    by auto
  have u: "snd (get_pretty_name g ds n k) =
      (v, case attrs ds (''val_dc_version_pretty_name'' @ str_int (k - 1)) of
                         Some w \<Rightarrow> w
                       | None \<Rightarrow> (case dataset_version_pretty_names g v of
                                     Some w \<Rightarrow> w
                                   | None \<Rightarrow> v))"
    using assms(4) by (simp add: get_pretty_name_snd)
  from e ds_get_meta_succeeds_anyway[OF assms(1)] show ?thesis unfolding u by simp
qed

theorem version_present_fallback_witness:
  "\<exists>meta. ds_get_meta example_tables example_ds ''R_between_1-ISMN_2-SMAP'' = Inr meta \<and>
     meta ''ref_no'' = Some (PInt 1) \<and> attrs example_ds ''val_dc_version0'' = Some ''v2'' \<and>
     meta ''ref_version'' = Some (PStr ''v2'') \<and>
     meta ''ref_version_pretty_name'' = Some (PStr ''version 2'')"
proof -
  from example_meta obtain meta where
    m: "ds_get_meta example_tables example_ds ''R_between_1-ISMN_2-SMAP'' = Inr meta" by blast
  have n: "meta (''ref'' @ ''_no'') = Some (PInt 1)" using example_roles(1)[OF m] by simp
  have a: "attrs example_ds (''val_dc_version'' @ str_int (1 - 1)) = Some ''v2''"
    unfolding example_keys by (simp add: example_ds_def)
  have b: "attrs example_ds (''val_dc_version_pretty_name'' @ str_int (1 - 1)) = None"
    unfolding example_keys by (simp add: example_ds_def)
  from version_present_fallback[OF m _ n a] b example_roles(1)[OF m] a m
  show ?thesis unfolding example_keys by (auto simp: example_tables_def)
qed

section \<open>\<^verbatim>\<open>get_metrics\<close>\<close>

text \<open>The list that \<^verbatim>\<open>_get_metrics\<close> builds has no metric twice.\<close>

lemma metrics_loop_distinct:
  "metrics_loop vm acc = Inr ms \<Longrightarrow> distinct acc \<Longrightarrow> distinct ms"
proof (induction vm arbitrary: acc)
  case Nil
  then show ?case by simp
next
  case (Cons p vm)
  obtain var meta where pm: "p = (var, meta)" by (cases p)
  from Cons.prems(1) pm obtain m where m: "meta ''metric'' = Some m"
    and r: "metrics_loop vm (if m \<notin> set acc then acc @ [m] else acc) = Inr ms"
    by (auto split: option.splits)
  have "distinct (if m \<notin> set acc then acc @ [m] else acc)" using Cons.prems(2) by simp
  from Cons.IH[OF r this] show ?case .
qed

lemma ds_get_metrics_distinct:
  assumes "ds_get_metrics g ds = Inr ms"
  shows "distinct ms"
  using assms metrics_loop_distinct[of _ "[]" ms]
  by (auto simp: ds_get_metrics_def split: sum.splits)

text \<open>
  Claim C9. For every input file, the list of metrics that \<^verbatim>\<open>get_metrics\<close> returns never
  contains \<^verbatim>\<open>tau\<close>. The two removals share one \<^verbatim>\<open>try\<close>, so \<^verbatim>\<open>p_tau\<close> is removed only
  when \<^verbatim>\<open>tau\<close> was there and has been removed first: when the variables of the file give
  \<^verbatim>\<open>p_tau\<close> but not \<^verbatim>\<open>tau\<close>, the returned list is the unchanged list of
  \<^verbatim>\<open>_get_metrics\<close> and still contains \<^verbatim>\<open>p_tau\<close>.
\<close>

theorem tau_removed_p_tau_conditionally:
  assumes "get_metrics g ds = Inr ms"
  shows "PStr ''tau'' \<notin> set ms \<and>
         (\<exists>ms0. ds_get_metrics g ds = Inr ms0 \<and>
            (PStr ''tau'' \<in> set ms0 \<longrightarrow>
               ms = remove1 (PStr ''p_tau'') (remove1 (PStr ''tau'') ms0) \<and>
               PStr ''p_tau'' \<notin> set ms) \<and>
            (PStr ''tau'' \<notin> set ms0 \<longrightarrow>
               ms = ms0 \<and> (PStr ''p_tau'' \<in> set ms0 \<longrightarrow> PStr ''p_tau'' \<in> set ms)))"
proof -
  from assms obtain ms0 where ms0: "ds_get_metrics g ds = Inr ms0"
    by (auto simp: get_metrics_def split: sum.splits)
  have d: "distinct ms0" using ms0 by (rule ds_get_metrics_distinct)
  show ?thesis
  proof (cases "PStr ''tau'' \<in> set ms0")
    case True
    with assms ms0 have ms: "ms = remove1 (PStr ''p_tau'') (remove1 (PStr ''tau'') ms0)"
      by (auto simp: get_metrics_def list_remove_def remove1_idem)
    have "PStr ''tau'' \<notin> set ms" unfolding ms using d by (auto dest: notin_set_remove1)
    moreover have "PStr ''p_tau'' \<notin> set ms" unfolding ms using d by simp
    ultimately show ?thesis using ms0 ms True by blast
  next
    case False
    with assms ms0 have "ms = ms0" by (auto simp: get_metrics_def list_remove_def)
    with False ms0 show ?thesis by blast
  qed
qed


lemmas eval_defs =
  ds_get_metrics_def ds_get_varmeta_def index_names_def list_remove_def
  ds_get_meta_def parse_var_def between_pattern_def is_digit_def is_space_def
  pretty_step_def get_pretty_name_def py_int_def digit_val_def
  str_int_def str_nat.simps digit_char_def AList.update.simps

lemma p_tau_ds_metrics:
  "ds_get_metrics example_tables p_tau_ds = Inr [PStr ''p_tau'', PStr ''R'']"
  by (simp add: p_tau_ds_def example_tables_def eval_defs)

lemma p_tau_ds_get_metrics:
  "get_metrics example_tables p_tau_ds = Inr [PStr ''p_tau'', PStr ''R'']"
  by (simp add: get_metrics_def p_tau_ds_metrics list_remove_def)

lemma tau_ds_get_metrics:
  "get_metrics example_tables tau_ds = Inr [PStr ''R'']"
  by (simp add: get_metrics_def tau_ds_def example_tables_def eval_defs)

theorem tau_removed_p_tau_conditionally_witness:
  "get_metrics example_tables p_tau_ds = Inr [PStr ''p_tau'', PStr ''R''] \<and>
   PStr ''tau'' \<notin> set [PStr ''p_tau'', PStr ''R''] \<and>
   ds_get_metrics example_tables p_tau_ds = Inr [PStr ''p_tau'', PStr ''R''] \<and>
   PStr ''p_tau'' \<in> set [PStr ''p_tau'', PStr ''R'']"
  using tau_removed_p_tau_conditionally[OF p_tau_ds_get_metrics] p_tau_ds_get_metrics
    p_tau_ds_metrics
  by simp

section \<open>\<^verbatim>\<open>_get_var\<close>\<close>

text \<open>
  For a metric made of ordinary characters only, \<^verbatim>\<open>_get_var\<close> selects, in the order of
  the dataset, the variables whose name begins with the metric and \<^verbatim>\<open>_between\<close>, letter
  case ignored; for \<^verbatim>\<open>n_obs\<close> it returns that one name without looking at the dataset.
\<close>

lemma compile_metric_plain:
  "\<forall>c \<in> set m. c \<noteq> CHR ''.'' \<and> \<not> re_special c \<Longrightarrow> compile_metric m = Some (map Literal m)"
  by (induction m) simp_all

lemma search_anchored_literals:
  "search_anchored (map Literal p) s = starts_with_ci p s"
proof (induction p arbitrary: s)
  case Nil
  then show ?case by (simp add: starts_with_ci_def)
next
  case (Cons a p)
  show ?case
  proof (cases s)
    case Nil
    then show ?thesis by (simp add: starts_with_ci_def)
  next
    case (Cons c s')
    with Cons.IH[of s'] show ?thesis by (auto simp: starts_with_ci_def)
  qed
qed

lemma ds_get_var_plain:
  assumes "m \<noteq> ''n_obs''" and "\<forall>c \<in> set m. c \<noteq> CHR ''.'' \<and> \<not> re_special c"
  shows "ds_get_var ds m = Some (filter (starts_with_ci (m @ ''_between'')) (data_vars ds))"
proof -
  have e: "map Literal m @ map Literal ''_between'' = map Literal (m @ ''_between'')" by simp
  have "search_anchored (map Literal m @ map Literal ''_between'') =
      starts_with_ci (m @ ''_between'')"
    unfolding e by (rule ext) (rule search_anchored_literals)
  with assms(1) show ?thesis
    by (simp only: ds_get_var_def compile_metric_plain[OF assms(2)] if_False option.case)
qed

lemma ds_get_var_n_obs: "ds_get_var ds ''n_obs'' = Some [''n_obs'']"
  by (simp add: ds_get_var_def)

text \<open>
  Claim C10 says that for every metric other than \<^verbatim>\<open>n_obs\<close> the function \<^verbatim>\<open>_get_var\<close>
  returns exactly the data variables whose name begins with the metric followed by
  \<^verbatim>\<open>_between\<close>, letter case ignored. The metric goes into the pattern unescaped, so a
  metric with an operator of the pattern language selects other names: for the metric
  \<^verbatim>\<open>.\<close> the variable \<^verbatim>\<open>R_between_1-ISMN_2-SMAP\<close> is returned, although its name does
  not begin with \<^verbatim>\<open>._between\<close>.
\<close>

theorem metric_read_as_pattern:
  "ds_get_var \<lparr>data_vars = [''R_between_1-ISMN_2-SMAP''], attrs = Map.empty\<rparr> ''.''
     = Some [''R_between_1-ISMN_2-SMAP''] \<and>
   \<not> starts_with_ci (''.'' @ ''_between'') ''R_between_1-ISMN_2-SMAP''"
  by (simp add: ds_get_var_def re_special_def starts_with_ci_def py_lower_def)

end
